theory Spec2Isabelle
  imports Main
begin

section \<open>md2xlsx: Markdown collected into blocks and rendered into worksheet cells\<close>

text \<open>
  A shallow embedding of \<^verbatim>\<open>src/md2xlsx.py\<close>. Python objects that are only ever read
  after construction are plain values. The \<^verbatim>\<open>styles\<close> list of a
  \<^verbatim>\<open>BlockElement\<close> is different: \<^verbatim>\<open>BlockCollector.nest\<close> mutates it in
  place and \<^verbatim>\<open>BlockCollector.__iadd__\<close> shares the elements (and so their lists)
  between collectors. Style lists therefore live in an explicit store and a
  \<^verbatim>\<open>BlockElement\<close> holds the address of its list.
\<close>

subsection \<open>Fonts, fills and alignments (the attributes handed to the worksheet)\<close>

datatype Color = Theme nat | RGB string

record Font =
  font_name :: string
  font_sz :: nat
  font_family :: nat
  font_b :: bool
  font_i :: bool
  font_color :: Color
  font_u :: "string option"
  font_strike :: "bool option"
  font_scheme :: "string option"

definition header_font :: "nat \<Rightarrow> Font" where
  "header_font sz = \<lparr>font_name = ''Calibri'', font_sz = sz, font_family = 2,
     font_b = False, font_i = False, font_color = Theme 1, font_u = None,
     font_strike = None, font_scheme = Some ''minor''\<rparr>"

definition FT_HEADER1 :: Font where "FT_HEADER1 = header_font 26"
definition FT_HEADER2 :: Font where "FT_HEADER2 = header_font 22"
definition FT_HEADER3 :: Font where "FT_HEADER3 = header_font 18"
definition FT_HEADER4 :: Font where "FT_HEADER4 = header_font 16"
definition FT_HEADER5 :: Font where "FT_HEADER5 = header_font 14"
definition FT_HEADER6 :: Font where "FT_HEADER6 = header_font 12"

record PatternFill =
  fill_type :: string
  start_color :: string
  end_color :: string

definition FILL_QUOTE :: PatternFill where
  "FILL_QUOTE = \<lparr>fill_type = ''solid'', start_color = ''FFA09BBB'', end_color = ''FFA09BBB''\<rparr>"

definition FILL_HRULE :: PatternFill where
  "FILL_HRULE = \<lparr>fill_type = ''solid'', start_color = ''FF000000'', end_color = ''FF000000''\<rparr>"

text \<open>
  \<^verbatim>\<open>Alignment()\<close> is the worksheet library's alignment object; the program touches
  its \<^verbatim>\<open>indent\<close> attribute only, which a fresh object has at 0.
\<close>

record Alignment =
  indent :: int

definition Alignment_init :: Alignment where
  "Alignment_init = \<lparr>indent = 0\<rparr>"

subsection \<open>\<^verbatim>\<open>ExcelCollectorRenderer.create_style\<close>\<close>

definition FONTS :: "string \<rightharpoonup> Font" where
  "FONTS = map_of [(''h1'', FT_HEADER1), (''h2'', FT_HEADER2), (''h3'', FT_HEADER3),
                   (''h4'', FT_HEADER4), (''h5'', FT_HEADER5), (''h6'', FT_HEADER6)]"

text \<open>
  The body of the \<^verbatim>\<open>for style in styles\<close> loop, with the three local variables
  \<^verbatim>\<open>font\<close>, \<^verbatim>\<open>alignment\<close>, \<^verbatim>\<open>fill\<close> as the loop state. The branches
  are the source's \<^verbatim>\<open>if\<close>/\<^verbatim>\<open>elif\<close> chain in its order; a tag that matches none
  of them leaves the state as it is.
\<close>

fun create_style_loop ::
  "string list \<Rightarrow> Font option \<times> Alignment option \<times> PatternFill option
     \<Rightarrow> Font option \<times> Alignment option \<times> PatternFill option" where
  "create_style_loop [] (font, alignment, fill) = (font, alignment, fill)"
| "create_style_loop (style # rest) (font, alignment, fill) =
     (case FONTS style of
        Some f \<Rightarrow> create_style_loop rest (Some f, alignment, fill)
      | None \<Rightarrow>
          if style = ''list'' \<or> style = ''link'' then
            (let a = (case alignment of None \<Rightarrow> Alignment_init | Some a \<Rightarrow> a)
             in create_style_loop rest (font, Some (a\<lparr>indent := indent a + 2\<rparr>), fill))
          else if style = ''quote'' then
            (let a = (case alignment of None \<Rightarrow> Alignment_init | Some a \<Rightarrow> a)
             in create_style_loop rest
                  (font, Some (a\<lparr>indent := indent a + 2\<rparr>),
                   (case fill of None \<Rightarrow> Some FILL_QUOTE | Some p \<Rightarrow> Some p)))
          else create_style_loop rest (font, alignment, fill))"

definition create_style ::
  "string list \<Rightarrow> Font option \<times> Alignment option \<times> PatternFill option" where
  "create_style style_list = create_style_loop style_list (None, None, None)"

text \<open>How many tags of a style list push the indent: \<^verbatim>\<open>list\<close>, \<^verbatim>\<open>link\<close>, \<^verbatim>\<open>quote\<close>.\<close>

definition indent_tags :: "string list \<Rightarrow> nat" where
  "indent_tags style_list =
     length (filter (\<lambda>s. s = ''list'' \<or> s = ''link'' \<or> s = ''quote'') style_list)"

definition ignored_tag :: "string \<Rightarrow> bool" where
  "ignored_tag s = (s = ''paragraph'' \<or> s = ''code'' \<or> s = ''list_item'' \<or> s = ''hrule'')"

subsection \<open>Errors\<close>

text \<open>
  The exceptions the modelled code can raise: the \<^verbatim>\<open>RuntimeError\<close> of
  \<^verbatim>\<open>Collector.__iadd__\<close> with its message, the \<^verbatim>\<open>AttributeError\<close> of a method
  call on \<^verbatim>\<open>None\<close>, the \<^verbatim>\<open>ValueError\<close> of an index lookup that finds nothing
  and the \<^verbatim>\<open>TypeError\<close> of iterating \<^verbatim>\<open>None\<close>.
\<close>

datatype error = RuntimeError string | AttributeError | ValueError | TypeError

subsection \<open>The store of style lists\<close>

text \<open>
  \<^verbatim>\<open>styles = []\<close> in \<^verbatim>\<open>BlockCollector.append\<close> allocates a new list object;
  \<^verbatim>\<open>element.styles.insert(0, style)\<close> in \<^verbatim>\<open>nest\<close> changes the object that every
  holder of the element sees.
\<close>

record store =
  cells :: "nat \<Rightarrow> string list"
  next_addr :: nat

definition empty_store :: store where
  "empty_store = \<lparr>cells = (\<lambda>a. []), next_addr = 0\<rparr>"

definition new_list :: "store \<Rightarrow> nat \<times> store" where
  "new_list h = (next_addr h, h\<lparr>cells := (cells h)(next_addr h := []), next_addr := next_addr h + 1\<rparr>)"

definition insert_front :: "nat \<Rightarrow> string \<Rightarrow> store \<Rightarrow> store" where
  "insert_front a style h = h\<lparr>cells := (cells h)(a := style # cells h a)\<rparr>"

subsection \<open>\<^verbatim>\<open>InlineElement\<close> and \<^verbatim>\<open>InlineCollector\<close>\<close>

text \<open>
  An inline collector is the list of its elements. No property below depends on two
  collectors sharing a marker set, so marker sets are values.
\<close>

record InlineElement =
  ie_text :: string
  ie_markers :: "string set"

type_synonym InlineCollector = "InlineElement list"

definition InlineCollector_append :: "InlineCollector \<Rightarrow> string \<Rightarrow> InlineCollector" where
  "InlineCollector_append self t = self @ [\<lparr>ie_text = t, ie_markers = {}\<rparr>]"

definition InlineCollector_init :: "string option \<Rightarrow> InlineCollector" where
  "InlineCollector_init t =
     (case t of None \<Rightarrow> [] | Some s \<Rightarrow> InlineCollector_append [] s)"

definition InlineCollector_iadd :: "InlineCollector \<Rightarrow> InlineCollector \<Rightarrow> InlineCollector" where
  "InlineCollector_iadd self bucket = self @ bucket"

definition apply_marker :: "InlineCollector \<Rightarrow> string \<Rightarrow> InlineCollector" where
  "apply_marker self marker =
     map (\<lambda>element. element\<lparr>ie_markers := insert marker (ie_markers element)\<rparr>) self"

subsection \<open>\<^verbatim>\<open>BlockElement\<close> and \<^verbatim>\<open>BlockCollector\<close>\<close>

record BlockElement =
  be_content :: InlineCollector
  be_styles :: nat

type_synonym BlockCollector = "BlockElement list"

definition BlockCollector_append ::
  "BlockCollector \<Rightarrow> InlineCollector \<Rightarrow> store \<Rightarrow> BlockCollector \<times> store" where
  "BlockCollector_append self content h =
     (let (styles, h') = new_list h
      in (self @ [\<lparr>be_content = content, be_styles = styles\<rparr>], h'))"

definition BlockCollector_init ::
  "InlineCollector option \<Rightarrow> store \<Rightarrow> BlockCollector \<times> store" where
  "BlockCollector_init content h =
     (case content of None \<Rightarrow> ([], h) | Some c \<Rightarrow> BlockCollector_append [] c h)"

text \<open>
  \<^verbatim>\<open>self.elements += other.elements\<close>: the elements of \<^verbatim>\<open>other\<close> themselves, not
  copies, are added; their style lists are those of \<^verbatim>\<open>other\<close>'s elements.
\<close>

definition BlockCollector_iadd :: "BlockCollector \<Rightarrow> BlockCollector \<Rightarrow> BlockCollector" where
  "BlockCollector_iadd self other = self @ other"

fun nest_loop :: "BlockElement list \<Rightarrow> string \<Rightarrow> store \<Rightarrow> store" where
  "nest_loop [] style h = h"
| "nest_loop (element # rest) style h =
     nest_loop rest style (insert_front (be_styles element) style h)"

definition nest :: "BlockCollector \<Rightarrow> string \<Rightarrow> store \<Rightarrow> BlockCollector \<times> store" where
  "nest self style h = (self, nest_loop self style h)"

text \<open>What \<^verbatim>\<open>element.styles\<close> reads in a store.\<close>

definition styles_of :: "store \<Rightarrow> BlockElement \<Rightarrow> string list" where
  "styles_of h element = cells h (be_styles element)"

subsection \<open>\<^verbatim>\<open>Collector\<close>\<close>

record Collector =
  inline :: "InlineCollector option"
  block :: "BlockCollector option"

definition Collector_init :: Collector where
  "Collector_init = \<lparr>inline = None, block = None\<rparr>"

definition add_block :: "Collector \<Rightarrow> BlockCollector \<Rightarrow> store \<Rightarrow> Collector \<times> store" where
  "add_block self block_collector h =
     (case block self of
        None \<Rightarrow>
          (case inline self of
             Some i \<Rightarrow>
               (let (b, h') = BlockCollector_init (Some i) h
                in (self\<lparr>block := Some (BlockCollector_iadd b block_collector), inline := None\<rparr>, h'))
           | None \<Rightarrow>
               (let (b, h') = BlockCollector_init None h
                in (self\<lparr>block := Some (BlockCollector_iadd b block_collector)\<rparr>, h')))
      | Some b \<Rightarrow> (self\<lparr>block := Some (BlockCollector_iadd b block_collector)\<rparr>, h))"

definition add_inline :: "Collector \<Rightarrow> InlineCollector \<Rightarrow> Collector" where
  "add_inline self inline_collector =
     (case inline self of
        None \<Rightarrow> self\<lparr>inline := Some inline_collector\<rparr>
      | Some i \<Rightarrow> self\<lparr>inline := Some (InlineCollector_iadd i inline_collector)\<rparr>)"

text \<open>
  The right operand of \<^verbatim>\<open>+=\<close>, by the \<^verbatim>\<open>isinstance\<close> tests of
  \<^verbatim>\<open>Collector.__iadd__\<close>: a block collector, an inline collector, a collector,
  \<^verbatim>\<open>None\<close>, or an object of any other class, given by its class name and its
  \<^verbatim>\<open>repr\<close> (the two things the error message prints).
\<close>

datatype operand =
    OfBlockCollector BlockCollector
  | OfInlineCollector InlineCollector
  | OfCollector Collector
  | OfNone
  | OfOther string string

text \<open>
  The branch for a collector calls \<^verbatim>\<open>self += other.block\<close>,
  \<^verbatim>\<open>self += BlockCollector(other.inline)\<close> and \<^verbatim>\<open>self += other.inline\<close>; their
  operands are a block collector, a block collector and an inline collector or
  \<^verbatim>\<open>None\<close>, so the nested calls end in \<^verbatim>\<open>_add_block\<close>, \<^verbatim>\<open>_add_block\<close> and
  \<^verbatim>\<open>_add_inline\<close> or \<^verbatim>\<open>pass\<close>. An inline collector defines neither
  \<^verbatim>\<open>__bool__\<close> nor \<^verbatim>\<open>__len__\<close>, so \<^verbatim>\<open>if other.inline:\<close> tests for
  \<^verbatim>\<open>None\<close>.
\<close>

fun Collector_iadd :: "Collector \<Rightarrow> operand \<Rightarrow> store \<Rightarrow> error + (Collector \<times> store)" where
  "Collector_iadd self (OfBlockCollector other) h = Inr (add_block self other h)"
| "Collector_iadd self (OfInlineCollector other) h = Inr (add_inline self other, h)"
| "Collector_iadd self (OfCollector other) h =
     (case block other of
        Some b \<Rightarrow>
          (let (self1, h1) = add_block self b h
           in (case inline other of
                 Some i \<Rightarrow>
                   (let (promoted, h2) = BlockCollector_init (Some i) h1
                    in Inr (add_block self1 promoted h2))
               | None \<Rightarrow> Inr (self1, h1)))
      | None \<Rightarrow>
          (case inline other of
             Some i \<Rightarrow> Inr (add_inline self i, h)
           | None \<Rightarrow> Inr (self, h)))"
| "Collector_iadd self OfNone h = Inr (self, h)"
| "Collector_iadd self (OfOther class_name object_repr) h =
     Inl (RuntimeError (''Unexpected type '' @ class_name @ '' appended to Collector: '' @ object_repr))"

subsection \<open>Decimal text of an index\<close>

text \<open>
  \<^verbatim>\<open>"{:d}".format(idx)\<close> and \<^verbatim>\<open>str(level)\<close> for the numbers the program
  formats, which are never negative: a link index counted from 1 and a heading level.
\<close>

fun format_d :: "nat \<Rightarrow> string" where
  "format_d n =
     (if n < 10 then [''0123456789'' ! n]
      else format_d (n div 10) @ [''0123456789'' ! (n mod 10)])"

declare format_d.simps [simp del]

subsection \<open>\<^verbatim>\<open>ExcelRenderer\<close>: the hooks the Markdown processor calls\<close>

text \<open>
  Modelled from the spec: \<^verbatim>\<open>IndexedList\<close> is the worksheet library's list without
  duplicates, the Link Registry's table of targets in first-seen order: \<^verbatim>\<open>add\<close>
  appends a value that is not in the list yet and leaves the list alone otherwise,
  \<^verbatim>\<open>index\<close> is the position of a value, counted from 0, and raises
  \<^verbatim>\<open>ValueError\<close> for a value that is not in the list.
\<close>

definition IndexedList_add :: "string list \<Rightarrow> string \<Rightarrow> string list" where
  "IndexedList_add xs v = (if v \<in> set xs then xs else xs @ [v])"

fun IndexedList_index :: "string list \<Rightarrow> string \<Rightarrow> nat option" where
  "IndexedList_index [] v = None"
| "IndexedList_index (x # xs) v =
     (if x = v then Some 0 else map_option Suc (IndexedList_index xs v))"

record ExcelRenderer =
  links :: "string list"

definition ExcelRenderer_init :: ExcelRenderer where
  "ExcelRenderer_init = \<lparr>links = []\<rparr>"

definition get_block :: "Collector \<Rightarrow> store \<Rightarrow> BlockCollector option \<times> store" where
  "get_block bucket h =
     (case inline bucket of
        Some i \<Rightarrow> (let (b, h') = BlockCollector_init (Some i) h in (Some b, h'))
      | None \<Rightarrow> (block bucket, h))"

text \<open>
  \<^verbatim>\<open>self._get_block(x).nest(tag)\<close>: when \<^verbatim>\<open>_get_block\<close> returns \<^verbatim>\<open>None\<close> (a
  bucket that collected nothing) the method call raises \<^verbatim>\<open>AttributeError\<close>.
\<close>

definition get_block_nest ::
  "Collector \<Rightarrow> string \<Rightarrow> store \<Rightarrow> error + (BlockCollector \<times> store)" where
  "get_block_nest bucket tag h =
     (case get_block bucket h of
        (None, h') \<Rightarrow> Inl AttributeError
      | (Some b, h') \<Rightarrow> Inr (nest b tag h'))"

definition block_code :: "Collector \<Rightarrow> store \<Rightarrow> error + (BlockCollector \<times> store)" where
  "block_code code h = get_block_nest code ''code'' h"

definition block_quote :: "Collector \<Rightarrow> store \<Rightarrow> error + (BlockCollector \<times> store)" where
  "block_quote t h = get_block_nest t ''quote'' h"

definition header :: "Collector \<Rightarrow> nat \<Rightarrow> store \<Rightarrow> error + (BlockCollector \<times> store)" where
  "header t level h = get_block_nest t (''h'' @ format_d level) h"

definition hrule :: "store \<Rightarrow> BlockCollector \<times> store" where
  "hrule h =
     (let (b, h') = BlockCollector_init (Some (InlineCollector_init (Some []))) h
      in nest b ''hrule'' h')"

definition list_hook :: "Collector \<Rightarrow> store \<Rightarrow> error + (BlockCollector \<times> store)" where
  "list_hook body h = get_block_nest body ''list'' h"

definition list_item :: "Collector \<Rightarrow> store \<Rightarrow> error + (BlockCollector \<times> store)" where
  "list_item t h = get_block_nest t ''list_item'' h"

definition paragraph_hook :: "Collector \<Rightarrow> store \<Rightarrow> error + (BlockCollector \<times> store)" where
  "paragraph_hook t h = get_block_nest t ''paragraph'' h"

definition text_hook :: "string \<Rightarrow> InlineCollector" where
  "text_hook t = InlineCollector_init (Some t)"

definition codespan :: "string \<Rightarrow> InlineCollector" where
  "codespan t = apply_marker (InlineCollector_init (Some t)) ''c''"

definition emphasis :: "Collector \<Rightarrow> error + InlineCollector" where
  "emphasis t = (case inline t of None \<Rightarrow> Inl AttributeError | Some i \<Rightarrow> Inr (apply_marker i ''i''))"

definition double_emphasis :: "Collector \<Rightarrow> error + InlineCollector" where
  "double_emphasis t =
     (case inline t of
        None \<Rightarrow> Inl AttributeError
      | Some i \<Rightarrow> Inr (apply_marker (apply_marker i ''i'') ''b''))"

text \<open>
  The first two lines of \<^verbatim>\<open>ExcelRenderer.link\<close>:
  \<^verbatim>\<open>self.links.add(link); idx = self.links.index(link) + 1\<close>.
\<close>

definition link_index :: "ExcelRenderer \<Rightarrow> string \<Rightarrow> error + (nat \<times> ExcelRenderer)" where
  "link_index self target =
     (let self' = self\<lparr>links := IndexedList_add (links self) target\<rparr>
      in (case IndexedList_index (links self') target of
            None \<Rightarrow> Inl ValueError
          | Some k \<Rightarrow> Inr (k + 1, self')))"

definition link ::
  "ExcelRenderer \<Rightarrow> string \<Rightarrow> string option \<Rightarrow> Collector
     \<Rightarrow> error + (InlineCollector \<times> ExcelRenderer)" where
  "link self target title content =
     (case link_index self target of
        Inl e \<Rightarrow> Inl e
      | Inr (idx, self') \<Rightarrow>
          (case inline content of
             None \<Rightarrow> Inl AttributeError
           | Some i \<Rightarrow>
               Inr (InlineCollector_append (apply_marker i ''l'') (''['' @ format_d idx @ '']''),
                    self')))"

text \<open>
  The loop of \<^verbatim>\<open>terminate\<close> over \<^verbatim>\<open>enumerate(self.links, start=1)\<close>; the first
  argument is the index of the next link. \<^verbatim>\<open>collector += block\<close> has a block
  collector as operand, which \<^verbatim>\<open>__iadd__\<close> hands to \<^verbatim>\<open>_add_block\<close>.
\<close>

fun terminate_loop :: "nat \<Rightarrow> string list \<Rightarrow> Collector \<Rightarrow> store \<Rightarrow> Collector \<times> store" where
  "terminate_loop idx [] collector h = (collector, h)"
| "terminate_loop idx (target # rest) collector h =
     (let content = InlineCollector_init (Some (''['' @ format_d idx @ ''] ''));
          content = InlineCollector_iadd content
                      (apply_marker (InlineCollector_init (Some target)) ''l'');
          (b, h1) = BlockCollector_init (Some content) h;
          (b, h2) = nest b ''link'' h1;
          (collector, h3) = add_block collector b h2
      in terminate_loop (idx + 1) rest collector h3)"

definition terminate :: "ExcelRenderer \<Rightarrow> store \<Rightarrow> Collector \<times> ExcelRenderer \<times> store" where
  "terminate self h =
     (let collector = Collector_init
      in if length (links self) > 0 then
           (let (blank, h1) = BlockCollector_init (Some (InlineCollector_init (Some []))) h;
                (collector, h2) = add_block collector blank h1;
                (collector, h3) = terminate_loop 1 (links self) collector h2
            in (collector, self\<lparr>links := []\<rparr>, h3))
         else (collector, self, h))"

subsection \<open>\<^verbatim>\<open>ExcelCollectorRenderer\<close>: blocks into cells\<close>

text \<open>
  Modelled from the spec: the worksheet is the sink of the Grid Renderer, with
  get-or-create of the cell at a row and a column, and a cell that takes rich text as a
  sequence of runs, each a text with a font or none, and a font, an alignment and a fill
  for the cell as a whole. Setting \<^verbatim>\<open>cell.rich_text\<close> to the empty string leaves no
  run; \<^verbatim>\<open>cell.rich_text += s\<close> adds the run of a string with no font,
  \<^verbatim>\<open>cell.rich_text += (s, font)\<close> the run of a string with a font.
\<close>

record Cell =
  cell_rich_text :: "(string \<times> Font option) list"
  cell_font :: "Font option"
  cell_alignment :: "Alignment option"
  cell_fill :: "PatternFill option"

definition new_cell :: Cell where
  "new_cell = \<lparr>cell_rich_text = [], cell_font = None, cell_alignment = None, cell_fill = None\<rparr>"

type_synonym Worksheet = "int \<times> int \<rightharpoonup> Cell"

definition ws_cell :: "Worksheet \<Rightarrow> int \<Rightarrow> int \<Rightarrow> Cell" where
  "ws_cell ws r c = (case ws (r, c) of None \<Rightarrow> new_cell | Some cell \<Rightarrow> cell)"

text \<open>The bullet of a list item, as the bytes of the string literal in the source file.\<close>

definition bullet :: string where
  "bullet = [CHR 0xC3, CHR 0xA2, CHR 0xE2, CHR 0x82, CHR 0xAC, CHR 0xC2, CHR 0xA2, CHR 0x20]"

definition prepare_cell :: "Cell \<Rightarrow> InlineCollector \<Rightarrow> string list \<Rightarrow> Cell" where
  "prepare_cell cell content style_list =
     (let cell = cell\<lparr>cell_rich_text := []\<rparr>
      in if ''list_item'' \<in> set style_list
         then cell\<lparr>cell_rich_text := cell_rich_text cell @ [(bullet, None)]\<rparr>
         else cell)"

definition create_font :: "string set \<Rightarrow> Font option" where
  "create_font marker_set =
     (if marker_set = {} then None
      else Some \<lparr>font_name = (if ''c'' \<in> marker_set then ''Consolas'' else ''Calibri''),
                 font_sz = 11,
                 font_family = (if ''c'' \<in> marker_set then 3 else 2),
                 font_b = (''b'' \<in> marker_set),
                 font_i = (''i'' \<in> marker_set),
                 font_color = (if ''l'' \<in> marker_set then RGB ''FF382DA0'' else Theme 1),
                 font_u = (if ''l'' \<in> marker_set then Some ''single'' else None),
                 font_strike = (if ''s'' \<in> marker_set then Some True else None),
                 font_scheme = None\<rparr>)"

fun fill_content :: "Cell \<Rightarrow> InlineCollector \<Rightarrow> Cell" where
  "fill_content cell [] = cell"
| "fill_content cell (element # rest) =
     fill_content
       (cell\<lparr>cell_rich_text :=
          cell_rich_text cell @ [(ie_text element, create_font (ie_markers element))]\<rparr>)
       rest"

definition do_cell :: "store \<Rightarrow> Cell \<Rightarrow> BlockElement \<Rightarrow> Cell" where
  "do_cell h cell blk =
     (let cell = prepare_cell cell (be_content blk) (styles_of h blk);
          cell = fill_content cell (be_content blk);
          (font, alignment, fill) = create_style (styles_of h blk);
          cell = (case font of None \<Rightarrow> cell | Some f \<Rightarrow> cell\<lparr>cell_font := Some f\<rparr>);
          cell = (case alignment of None \<Rightarrow> cell | Some a \<Rightarrow> cell\<lparr>cell_alignment := Some a\<rparr>);
          cell = (case fill of None \<Rightarrow> cell | Some p \<Rightarrow> cell\<lparr>cell_fill := Some p\<rparr>)
      in cell)"

text \<open>
  The renderer holds the worksheet, the counter \<^verbatim>\<open>itertools.count(row)\<close> by the
  number it gives next, and the column.
\<close>

record ExcelCollectorRenderer =
  ecr_ws :: Worksheet
  ecr_row :: int
  ecr_col :: int

definition ExcelCollectorRenderer_init :: "Worksheet \<Rightarrow> int \<Rightarrow> int \<Rightarrow> ExcelCollectorRenderer" where
  "ExcelCollectorRenderer_init worksheet r c = \<lparr>ecr_ws = worksheet, ecr_row = r, ecr_col = c\<rparr>"

text \<open>
  \<^verbatim>\<open>for row, block in zip(self.row, block_collector)\<close>: \<^verbatim>\<open>zip\<close> takes a number
  from the counter before it asks the collector for a block, so the counter has given
  one number more than there are blocks when the loop ends.
\<close>

fun render_loop ::
  "store \<Rightarrow> ExcelCollectorRenderer \<Rightarrow> BlockElement list \<Rightarrow> ExcelCollectorRenderer" where
  "render_loop h self [] = self\<lparr>ecr_row := ecr_row self + 1\<rparr>"
| "render_loop h self (blk # rest) =
     (let r = ecr_row self;
          cell = do_cell h (ws_cell (ecr_ws self) r (ecr_col self)) blk
      in render_loop h
           (self\<lparr>ecr_ws := (ecr_ws self)((r, ecr_col self) \<mapsto> cell), ecr_row := r + 1\<rparr>)
           rest)"

definition render ::
  "ExcelCollectorRenderer \<Rightarrow> BlockCollector option \<Rightarrow> store \<Rightarrow> error + ExcelCollectorRenderer" where
  "render self block_collector h =
     (case block_collector of
        None \<Rightarrow> Inl TypeError
      | Some b \<Rightarrow> Inr (render_loop h self b))"

text \<open>
  \<^verbatim>\<open>Collector.render\<close>, with the Markdown renderer the collector holds as second
  argument. It returns the grid renderer (with the worksheet written), the collector,
  the Markdown renderer and the store.
\<close>

definition Collector_render ::
  "Collector \<Rightarrow> ExcelRenderer \<Rightarrow> store \<Rightarrow> Worksheet \<Rightarrow> int \<Rightarrow> int
     \<Rightarrow> error + (ExcelCollectorRenderer \<times> Collector \<times> ExcelRenderer \<times> store)" where
  "Collector_render self md h worksheet r c =
     (let renderer = ExcelCollectorRenderer_init worksheet r c;
          (self1, h1) =
            (case block self of
               None \<Rightarrow>
                 (let (b, h') = BlockCollector_init (inline self) h
                  in (self\<lparr>block := Some b, inline := None\<rparr>, h'))
             | Some b \<Rightarrow> (self, h));
          (last_minute, md', h2) = terminate md h1
      in (case Collector_iadd self1 (OfCollector last_minute) h2 of
            Inl e \<Rightarrow> Inl e
          | Inr (self2, h3) \<Rightarrow>
              (case render renderer (block self2) h3 of
                 Inl e \<Rightarrow> Inl e
               | Inr renderer' \<Rightarrow> Inr (renderer', self2, md', h3))))"

text \<open>The indent of an alignment that may be absent.\<close>

definition indent_or_zero :: "Alignment option \<Rightarrow> int" where
  "indent_or_zero a = (case a of None \<Rightarrow> 0 | Some x \<Rightarrow> indent x)"

subsection \<open>Example objects\<close>

text \<open>
  \<^verbatim>\<open>b = BlockCollector(InlineCollector("x")); b += b\<close> in the empty store: a
  collector that holds its one element twice.
\<close>

definition twice_merged :: "BlockCollector \<times> store" where
  "twice_merged =
     (let (b, h) = BlockCollector_init (Some (text_hook ''x'')) empty_store
      in (BlockCollector_iadd b b, h))"

subsection \<open>Sequences of registrations and the reference rows\<close>

text \<open>
  The indices that the link hook computes for a sequence of targets, one call after the
  other on the same renderer.
\<close>

fun link_indices :: "ExcelRenderer \<Rightarrow> string list \<Rightarrow> error + nat list" where
  "link_indices self [] = Inr []"
| "link_indices self (target # rest) =
     (case link_index self target of
        Inl e \<Rightarrow> Inl e
      | Inr (idx, self') \<Rightarrow>
          (case link_indices self' rest of
             Inl e \<Rightarrow> Inl e
           | Inr idxs \<Rightarrow> Inr (idx # idxs)))"

text \<open>
  The content the spec gives a reference row: the plain run of the index in brackets
  and a space, then the run of the target with the link marker.
\<close>

definition reference_content :: "nat \<Rightarrow> string \<Rightarrow> InlineCollector" where
  "reference_content idx target =
     [\<lparr>ie_text = ''['' @ format_d idx @ ''] '', ie_markers = {}\<rparr>,
      \<lparr>ie_text = target, ie_markers = {''l''}\<rparr>]"

text \<open>Reference rows for targets numbered from an index, with style lists from an address.\<close>

definition reference_blocks :: "nat \<Rightarrow> nat \<Rightarrow> string list \<Rightarrow> BlockElement list" where
  "reference_blocks idx a ls =
     map (\<lambda>k. \<lparr>be_content = reference_content (idx + k) (ls ! k), be_styles = a + k\<rparr>)
       [0..<length ls]"

subsection \<open>The calls of the Markdown processor\<close>

text \<open>What follows a call that may raise.\<close>

definition and_then :: "error + 'a \<Rightarrow> ('a \<Rightarrow> error + 'b) \<Rightarrow> error + 'b" where
  "and_then m f = (case m of Inl e \<Rightarrow> Inl e | Inr x \<Rightarrow> f x)"

text \<open>
  Modelled from the spec: the Markdown processor is an event source that calls the
  hooks and combines what they return with \<^verbatim>\<open>+=\<close> on a placeholder collector. For
  the input of a heading \<^verbatim>\<open>Title\<close> of level 1 and a paragraph
  \<^verbatim>\<open>Hello **world**.\<close> the calls are: the text hook on \<^verbatim>\<open>Title\<close> into a
  placeholder, the header hook on that placeholder, its result into the output; the
  text hook on \<^verbatim>\<open>Hello \<close> into a placeholder for the paragraph, the text hook on
  \<^verbatim>\<open>world\<close> into a placeholder of its own, the double emphasis hook on that one and
  its result into the paragraph's placeholder, the text hook on the full stop into it,
  the paragraph hook on it, and its result into the output.
\<close>

definition title_and_paragraph :: "error + (Collector \<times> store)" where
  "title_and_paragraph =
     and_then (Collector_iadd Collector_init (OfInlineCollector (text_hook ''Title'')) empty_store)
       (\<lambda>(title, h1).
     and_then (header title 1 h1) (\<lambda>(b1, h2).
     and_then (Collector_iadd Collector_init (OfBlockCollector b1) h2) (\<lambda>(out, h3).
     and_then (Collector_iadd Collector_init (OfInlineCollector (text_hook ''Hello '')) h3)
       (\<lambda>(p, h4).
     and_then (Collector_iadd Collector_init (OfInlineCollector (text_hook ''world'')) h4)
       (\<lambda>(strong, h5).
     and_then (double_emphasis strong) (\<lambda>bold.
     and_then (Collector_iadd p (OfInlineCollector bold) h5) (\<lambda>(p, h6).
     and_then (Collector_iadd p (OfInlineCollector (text_hook ''.'')) h6) (\<lambda>(p, h7).
     and_then (paragraph_hook p h7) (\<lambda>(b2, h8).
     Collector_iadd out (OfBlockCollector b2) h8)))))))))"

text \<open>The blocks a collector holds, and the style lists of the blocks of a result.\<close>

definition blocks_of :: "Collector \<Rightarrow> BlockElement list" where
  "blocks_of c = (case block c of None \<Rightarrow> [] | Some b \<Rightarrow> b)"

definition emitted_styles :: "error + (Collector \<times> store) \<Rightarrow> error + string list list" where
  "emitted_styles res = and_then res (\<lambda>(c, h). Inr (map (styles_of h) (blocks_of c)))"

text \<open>
  Modelled from the spec: for a document of paragraphs only, the processor calls the
  paragraph hook on a placeholder that collected the paragraph's inline content (here
  given as one inline collector per paragraph) and adds the result to the output.
\<close>

fun parse_paragraphs ::
  "InlineCollector list \<Rightarrow> Collector \<Rightarrow> store \<Rightarrow> error + (Collector \<times> store)" where
  "parse_paragraphs [] out h = Inr (out, h)"
| "parse_paragraphs (p # ps) out h =
     (case paragraph_hook (add_inline Collector_init p) h of
        Inl e \<Rightarrow> Inl e
      | Inr (b, h1) \<Rightarrow>
          (case Collector_iadd out (OfBlockCollector b) h1 of
             Inl e \<Rightarrow> Inl e
           | Inr (out', h2) \<Rightarrow> parse_paragraphs ps out' h2))"

text \<open>The cells of n consecutive rows from row r in column c.\<close>

definition rows_from :: "int \<Rightarrow> int \<Rightarrow> nat \<Rightarrow> (int \<times> int) set" where
  "rows_from r c n = (\<lambda>k. (r + int k, c)) ` {..<n}"

section \<open>Properties\<close>

subsection \<open>The style resolver\<close>

lemma FONTS_Some:
  "FONTS s = Some f \<Longrightarrow> s \<noteq> ''list'' \<and> s \<noteq> ''link'' \<and> s \<noteq> ''quote'' \<and> \<not> ignored_tag s"
  by (auto simp: FONTS_def ignored_tag_def split: if_splits)

lemma FONTS_ignored: "ignored_tag s \<Longrightarrow> FONTS s = None"
  by (auto simp: FONTS_def ignored_tag_def)

lemma indent_tags_Cons:
  "indent_tags (s # xs) =
     (if s = ''list'' \<or> s = ''link'' \<or> s = ''quote'' then Suc (indent_tags xs)
      else indent_tags xs)"
  by (simp add: indent_tags_def)

lemma indent_tags_Nil: "indent_tags [] = 0"
  by (simp add: indent_tags_def)

text \<open>The loop from any state: what it makes of the alignment and of the fill.\<close>

lemma loop_alignment:
  "fst (snd (create_style_loop xs (f, a, p))) =
     (if indent_tags xs = 0 then a
      else Some \<lparr>indent = indent_or_zero a + 2 * int (indent_tags xs)\<rparr>)"
proof (induction xs arbitrary: f a p)
  case Nil
  show ?case by (simp add: indent_tags_Nil)
next
  case (Cons s xs)
  show ?case
  proof (cases "FONTS s")
    case (Some g)
    from FONTS_Some[OF Some] show ?thesis
      by (simp add: Some Cons.IH indent_tags_Cons)
  next
    case None
    show ?thesis
      by (cases a)
        (simp_all add: None Cons.IH indent_tags_Cons indent_or_zero_def Alignment_init_def Let_def)
  qed
qed

lemma loop_fill:
  "snd (snd (create_style_loop xs (f, a, p))) =
     (case p of
        Some q \<Rightarrow> Some q
      | None \<Rightarrow> if ''quote'' \<in> set xs then Some FILL_QUOTE else None)"
proof (induction xs arbitrary: f a p)
  case Nil
  show ?case by (simp split: option.splits)
next
  case (Cons s xs)
  show ?case
  proof (cases "FONTS s")
    case (Some g)
    from FONTS_Some[OF Some] show ?thesis
      by (auto simp: Some Cons.IH split: option.splits)
  next
    case None
    show ?thesis
      by (simp add: None Cons.IH Let_def split: option.splits)
  qed
qed

lemma loop_append:
  "create_style_loop (xs @ ys) st = create_style_loop ys (create_style_loop xs st)"
proof (induction xs arbitrary: st)
  case Nil
  show ?case by (cases st) simp
next
  case (Cons s xs)
  obtain f a p where st: "st = (f, a, p)" by (cases st)
  show ?case unfolding st
    by (simp add: Cons.IH Let_def split: option.splits)
qed

lemma loop_ignored:
  "ignored_tag t \<Longrightarrow> create_style_loop (t # ys) st = create_style_loop ys st"
  by (cases st) (auto simp: FONTS_ignored ignored_tag_def)

lemma loop_all_ignored:
  "list_all ignored_tag zs \<Longrightarrow> create_style_loop zs st = st"
  by (induction zs) (simp_all add: loop_ignored del: create_style_loop.simps, cases st, simp)

text \<open>
  C9. For every style list, the alignment that \<^verbatim>\<open>create_style\<close> returns is absent
  when the list has no \<^verbatim>\<open>list\<close>, \<^verbatim>\<open>link\<close> or \<^verbatim>\<open>quote\<close> tag, and otherwise has
  the indent 2 times the number of occurrences of these three tags; the fill it returns
  is \<^verbatim>\<open>FILL_QUOTE\<close> when a \<^verbatim>\<open>quote\<close> tag occurs and absent when none does.
\<close>

theorem create_style_indent_and_fill:
  "fst (snd (create_style style_list)) =
     (if indent_tags style_list = 0 then None
      else Some \<lparr>indent = 2 * int (indent_tags style_list)\<rparr>)
   \<and> snd (snd (create_style style_list)) =
     (if ''quote'' \<in> set style_list then Some FILL_QUOTE else None)"
  by (simp add: create_style_def loop_alignment loop_fill indent_or_zero_def)

theorem create_style_indent_and_fill_witness:
  "fst (snd (create_style [''quote'', ''list'', ''list_item''])) = Some \<lparr>indent = 4\<rparr>
   \<and> snd (snd (create_style [''quote'', ''list'', ''list_item''])) = Some FILL_QUOTE
   \<and> fst (snd (create_style [''h1''])) = None
   \<and> snd (snd (create_style [''h1''])) = None"
  using create_style_indent_and_fill[of "[''quote'', ''list'', ''list_item'']"]
        create_style_indent_and_fill[of "[''h1'']"]
  by (simp add: indent_tags_def)

text \<open>
  C10. \<^verbatim>\<open>create_style\<close> ignores the tags \<^verbatim>\<open>paragraph\<close>, \<^verbatim>\<open>code\<close>,
  \<^verbatim>\<open>list_item\<close> and \<^verbatim>\<open>hrule\<close>: a style list with one of them at any place
  resolves to what the list without it resolves to (so the result is the same after
  inserting the tag and after removing it), and a list of such tags only resolves to no
  font, no alignment and no fill.
\<close>

theorem create_style_ignores_block_tags:
  "(ignored_tag t \<longrightarrow> create_style (xs @ t # ys) = create_style (xs @ ys))
   \<and> (list_all ignored_tag zs \<longrightarrow> create_style zs = (None, None, None))"
  by (simp add: create_style_def loop_append loop_ignored loop_all_ignored
        del: create_style_loop.simps)

theorem create_style_ignores_block_tags_witness:
  "ignored_tag ''hrule''
   \<and> create_style ([''quote''] @ ''hrule'' # [''list'']) = create_style ([''quote''] @ [''list''])
   \<and> list_all ignored_tag [''paragraph'', ''code'', ''list_item'', ''hrule'']
   \<and> create_style [''paragraph'', ''code'', ''list_item'', ''hrule''] = (None, None, None)"
proof -
  have a: "ignored_tag ''hrule''" by (simp add: ignored_tag_def)
  have b: "list_all ignored_tag [''paragraph'', ''code'', ''list_item'', ''hrule'']"
    by (simp add: ignored_tag_def)
  from create_style_ignores_block_tags[of "''hrule''" "[''quote'']" "[''list'']"
      "[''paragraph'', ''code'', ''list_item'', ''hrule'']"] a b
  show ?thesis by blast
qed

subsection \<open>Nesting\<close>

lemma nest_loop_next_addr: "next_addr (nest_loop b tag h) = next_addr h"
  by (induction b arbitrary: h) (simp_all add: insert_front_def)

text \<open>
  The loop of \<^verbatim>\<open>nest\<close> puts the tag in front of a style list once for every
  element of the collector that holds the list.
\<close>

lemma nest_loop_cells:
  "cells (nest_loop b tag h) a =
     replicate (count_list (map be_styles b) a) tag @ cells h a"
proof (induction b arbitrary: h)
  case Nil
  show ?case by simp
next
  case (Cons e b)
  show ?case
    by (simp add: Cons.IH insert_front_def replicate_app_Cons_same)
qed

lemma count_list_distinct:
  "distinct xs \<Longrightarrow> count_list xs a = (if a \<in> set xs then 1 else 0)"
  by (induction xs) auto

lemma nest_loop_distinct:
  assumes "distinct (map be_styles b)" and "e \<in> set b"
  shows "cells (nest_loop b tag h) (be_styles e) = tag # cells h (be_styles e)"
  using assms by (simp add: nest_loop_cells count_list_distinct)

text \<open>
  Collectors built by \<^verbatim>\<open>append\<close> on a store, and merges of collectors that share
  no element, hold pairwise distinct style lists.
\<close>

lemma append_keeps_distinct:
  assumes "distinct (map be_styles b)" and "\<forall>e \<in> set b. be_styles e < next_addr h"
  shows "distinct (map be_styles (fst (BlockCollector_append b c h)))
    \<and> (\<forall>e \<in> set (fst (BlockCollector_append b c h)).
          be_styles e < next_addr (snd (BlockCollector_append b c h)))"
  using assms by (fastforce simp: BlockCollector_append_def new_list_def)

lemma iadd_keeps_distinct:
  assumes "distinct (map be_styles b1)" and "distinct (map be_styles b2)"
    and "be_styles ` set b1 \<inter> be_styles ` set b2 = {}"
  shows "distinct (map be_styles (BlockCollector_iadd b1 b2))"
  using assms by (simp add: BlockCollector_iadd_def)

text \<open>
  C4 (as amended). For every block collector whose elements have pairwise distinct
  style lists, and every tag, \<^verbatim>\<open>nest(tag)\<close> returns the collector and puts the tag
  in front of the style list of every element; so after \<^verbatim>\<open>nest(B)\<close> and then
  \<^verbatim>\<open>nest(A)\<close> the style list of every element is \<^verbatim>\<open>A\<close>, \<^verbatim>\<open>B\<close> and then what
  it was before, whatever appends and merges built the collector.
\<close>

theorem nest_prepends_to_distinct_elements:
  assumes "distinct (map be_styles b)"
  shows "fst (nest b tag h) = b
    \<and> (\<forall>e \<in> set b. styles_of (snd (nest b tag h)) e = tag # styles_of h e)
    \<and> (\<forall>e \<in> set b.
          styles_of (snd (nest (fst (nest b B h)) A (snd (nest b B h)))) e
            = A # B # styles_of h e)"
  using assms by (simp add: nest_def styles_of_def nest_loop_distinct)

theorem nest_prepends_to_distinct_elements_witness:
  "distinct (map be_styles [\<lparr>be_content = [], be_styles = 0\<rparr>, \<lparr>be_content = [], be_styles = 1\<rparr>])
   \<and> styles_of
        (snd (nest [\<lparr>be_content = [], be_styles = 0\<rparr>, \<lparr>be_content = [], be_styles = 1\<rparr>] ''quote''
           (snd (nest [\<lparr>be_content = [], be_styles = 0\<rparr>, \<lparr>be_content = [], be_styles = 1\<rparr>]
                   ''list'' empty_store))))
        \<lparr>be_content = [], be_styles = 1\<rparr>
      = [''quote'', ''list'']"
proof -
  have d: "distinct (map be_styles [\<lparr>be_content = [], be_styles = 0\<rparr>, \<lparr>be_content = [], be_styles = 1\<rparr>])"
    by simp
  from nest_prepends_to_distinct_elements[OF d, of "''list''" empty_store "''list''" "''quote''"]
  show ?thesis using d by (simp add: styles_of_def empty_store_def nest_def insert_front_def)
qed

text \<open>
  C4 as stated fails on a collector that holds an element twice: after
  \<^verbatim>\<open>b += b\<close> one \<^verbatim>\<open>nest("list")\<close> leaves the style list \<^verbatim>\<open>["list", "list"]\<close>,
  and \<^verbatim>\<open>nest("quote")\<close> after it leaves
  \<^verbatim>\<open>["quote", "quote", "list", "list"]\<close>, which does not begin with \<^verbatim>\<open>"quote"\<close>,
  \<^verbatim>\<open>"list"\<close>.
\<close>

theorem nest_on_shared_elements_counterexample:
  "fst twice_merged =
     [\<lparr>be_content = text_hook ''x'', be_styles = 0\<rparr>, \<lparr>be_content = text_hook ''x'', be_styles = 0\<rparr>]
   \<and> map (styles_of (snd twice_merged)) (fst twice_merged) = [[], []]
   \<and> map (styles_of (snd (nest (fst twice_merged) ''list'' (snd twice_merged)))) (fst twice_merged)
       = [[''list'', ''list''], [''list'', ''list'']]
   \<and> map (styles_of (snd (nest (fst twice_merged) ''quote''
                        (snd (nest (fst twice_merged) ''list'' (snd twice_merged))))))
         (fst twice_merged)
       = [[''quote'', ''quote'', ''list'', ''list''], [''quote'', ''quote'', ''list'', ''list'']]"
  by (simp add: twice_merged_def BlockCollector_init_def BlockCollector_append_def new_list_def
        empty_store_def BlockCollector_iadd_def nest_def insert_front_def styles_of_def)

subsection \<open>Appending to a collector\<close>

text \<open>
  C1. Appending a block collector to a collector with no pending block and a pending
  inline first makes the pending inline the one element of a new block collector (with
  a new, empty style list), clears the pending inline, and puts the appended blocks
  after that element; appending to a collector with a pending block puts the appended
  blocks after the pending ones and changes nothing else.
\<close>

theorem add_block_promotes_pending_inline:
  "(block self = None \<and> inline self = Some i \<longrightarrow>
      Collector_iadd self (OfBlockCollector bc) h =
        Inr (\<lparr>inline = None, block = Some (\<lparr>be_content = i, be_styles = next_addr h\<rparr> # bc)\<rparr>,
             h\<lparr>cells := (cells h)(next_addr h := []), next_addr := next_addr h + 1\<rparr>))
   \<and> (block self = Some b \<longrightarrow>
      Collector_iadd self (OfBlockCollector bc) h = Inr (self\<lparr>block := Some (b @ bc)\<rparr>, h))"
  by (simp add: add_block_def BlockCollector_init_def BlockCollector_append_def new_list_def
        BlockCollector_iadd_def)

theorem add_block_promotes_pending_inline_witness:
  "block \<lparr>inline = Some (text_hook ''item''), block = None\<rparr> = None
   \<and> inline \<lparr>inline = Some (text_hook ''item''), block = None\<rparr> = Some (text_hook ''item'')
   \<and> Collector_iadd \<lparr>inline = Some (text_hook ''item''), block = None\<rparr>
        (OfBlockCollector [\<lparr>be_content = text_hook ''nested'', be_styles = 0\<rparr>])
        \<lparr>cells = (\<lambda>a. []), next_addr = 1\<rparr>
      = Inr (\<lparr>inline = None,
               block = Some [\<lparr>be_content = text_hook ''item'', be_styles = 1\<rparr>,
                             \<lparr>be_content = text_hook ''nested'', be_styles = 0\<rparr>]\<rparr>,
             \<lparr>cells = (\<lambda>a. [])(1 := []), next_addr = 2\<rparr>)
   \<and> block \<lparr>inline = None, block = Some [\<lparr>be_content = text_hook ''a'', be_styles = 0\<rparr>]\<rparr>
      = Some [\<lparr>be_content = text_hook ''a'', be_styles = 0\<rparr>]
   \<and> Collector_iadd \<lparr>inline = None, block = Some [\<lparr>be_content = text_hook ''a'', be_styles = 0\<rparr>]\<rparr>
        (OfBlockCollector [\<lparr>be_content = text_hook ''b'', be_styles = 1\<rparr>])
        \<lparr>cells = (\<lambda>a. []), next_addr = 2\<rparr>
      = Inr (\<lparr>inline = None,
               block = Some [\<lparr>be_content = text_hook ''a'', be_styles = 0\<rparr>,
                             \<lparr>be_content = text_hook ''b'', be_styles = 1\<rparr>]\<rparr>,
             \<lparr>cells = (\<lambda>a. []), next_addr = 2\<rparr>)"
  using add_block_promotes_pending_inline
          [of "\<lparr>inline = Some (text_hook ''item''), block = None\<rparr>" "text_hook ''item''"
              "[\<lparr>be_content = text_hook ''nested'', be_styles = 0\<rparr>]"
              "\<lparr>cells = (\<lambda>a. []), next_addr = 1\<rparr>"]
        add_block_promotes_pending_inline
          [of "\<lparr>inline = None, block = Some [\<lparr>be_content = text_hook ''a'', be_styles = 0\<rparr>]\<rparr>"
              _ "[\<lparr>be_content = text_hook ''b'', be_styles = 1\<rparr>]"
              "\<lparr>cells = (\<lambda>a. []), next_addr = 2\<rparr>"
              "[\<lparr>be_content = text_hook ''a'', be_styles = 0\<rparr>]"]
  by simp

text \<open>
  C5. Appending \<^verbatim>\<open>None\<close> to a collector returns the collector and the store as they
  were. Appending an object that is not a block collector, an inline collector, a
  collector or \<^verbatim>\<open>None\<close> raises \<^verbatim>\<open>RuntimeError\<close> with the class and the value in
  its message, and these are the only operands on which the append raises.
\<close>

theorem iadd_none_and_unexpected:
  "Collector_iadd self OfNone h = Inr (self, h)
   \<and> Collector_iadd self (OfOther class_name object_repr) h =
       Inl (RuntimeError
              (''Unexpected type '' @ class_name @ '' appended to Collector: '' @ object_repr))
   \<and> ((\<exists>e. Collector_iadd self x h = Inl e) \<longleftrightarrow> (\<exists>cn r. x = OfOther cn r))"
  by (cases x) (auto simp: Let_def split: option.splits prod.splits)

theorem iadd_none_and_unexpected_witness:
  "Collector_iadd \<lparr>inline = Some (text_hook ''a''), block = None\<rparr> OfNone empty_store
     = Inr (\<lparr>inline = Some (text_hook ''a''), block = None\<rparr>, empty_store)
   \<and> Collector_iadd \<lparr>inline = Some (text_hook ''a''), block = None\<rparr> (OfOther ''int'' ''42'') empty_store
     = Inl (RuntimeError ''Unexpected type int appended to Collector: 42'')"
  using iadd_none_and_unexpected
          [of "\<lparr>inline = Some (text_hook ''a''), block = None\<rparr>" empty_store "''int''" "''42''" OfNone]
  by simp

subsection \<open>The link registry\<close>

lemma index_append:
  "v \<in> set xs \<Longrightarrow> IndexedList_index (xs @ zs) v = IndexedList_index xs v"
  by (induction xs) auto

lemma index_fresh:
  "v \<notin> set xs \<Longrightarrow> IndexedList_index (xs @ [v]) v = Some (length xs)"
  by (induction xs) auto

lemma index_found:
  "v \<in> set xs \<Longrightarrow> \<exists>k. IndexedList_index xs v = Some k \<and> k < length xs \<and> xs ! k = v"
  by (induction xs) auto

lemma add_fresh: "v \<notin> set xs \<Longrightarrow> IndexedList_add xs v = xs @ [v]"
  by (simp add: IndexedList_add_def)

lemma add_known: "v \<in> set xs \<Longrightarrow> IndexedList_add xs v = xs"
  by (simp add: IndexedList_add_def)

lemma add_member: "t \<in> set (IndexedList_add xs t)"
  by (simp add: IndexedList_add_def)

text \<open>Registrations only ever extend the registry at its end.\<close>

lemma add_prefix: "\<exists>zs. foldl IndexedList_add xs ts = xs @ zs"
proof (induction ts arbitrary: xs)
  case Nil
  show ?case by simp
next
  case (Cons t ts)
  obtain ys where ys: "IndexedList_add xs t = xs @ ys"
    by (cases "t \<in> set xs") (simp_all add: add_fresh add_known)
  obtain zs where zs: "foldl IndexedList_add (xs @ ys) ts = (xs @ ys) @ zs"
    using Cons.IH by blast
  have "foldl IndexedList_add xs (t # ts) = xs @ (ys @ zs)"
    by (simp only: foldl_Cons ys zs append_assoc)
  then show ?case by blast
qed

lemma add_distinct_set:
  "distinct xs \<Longrightarrow>
     distinct (foldl IndexedList_add xs ts) \<and> set (foldl IndexedList_add xs ts) = set xs \<union> set ts"
proof (induction ts arbitrary: xs)
  case Nil
  then show ?case by simp
next
  case (Cons t ts)
  have d: "distinct (IndexedList_add xs t)" and s: "set (IndexedList_add xs t) = insert t (set xs)"
    using Cons.prems by (cases "t \<in> set xs"; simp add: add_fresh add_known insert_absorb)+
  from Cons.IH[OF d] s show ?case by simp
qed

lemma link_index_eq:
  "link_index self t =
     Inr (the (IndexedList_index (IndexedList_add (links self) t) t) + 1,
          self\<lparr>links := IndexedList_add (links self) t\<rparr>)"
  using index_found[of t "IndexedList_add (links self) t", OF add_member]
  by (auto simp: link_index_def Let_def)

text \<open>
  One call of the link hook: a target that is new gets the number of registered targets
  plus one and is registered last; a registered target gets its position (from 1) and
  leaves the registry as it is.
\<close>

lemma link_index_new:
  "t \<notin> set (links self) \<Longrightarrow>
     link_index self t = Inr (length (links self) + 1, self\<lparr>links := links self @ [t]\<rparr>)"
  by (simp add: link_index_eq add_fresh index_fresh)

lemma link_index_known:
  "t \<in> set (links self) \<Longrightarrow>
     \<exists>k < length (links self). links self ! k = t \<and> link_index self t = Inr (k + 1, self)"
  using index_found[of t "links self"] by (auto simp: link_index_eq add_known)

lemma link_appends_index:
  "inline content = Some i \<Longrightarrow> link_index self t = Inr (idx, self') \<Longrightarrow>
     link self t title content =
       Inr (apply_marker i ''l'' @ [\<lparr>ie_text = ''['' @ format_d idx @ '']'', ie_markers = {}\<rparr>], self')"
  by (simp add: link_def InlineCollector_append_def)

lemma link_indices_closed_form:
  "link_indices self ts =
     Inr (map (\<lambda>t. the (IndexedList_index (foldl IndexedList_add (links self) ts) t) + 1) ts)"
proof (induction ts arbitrary: self)
  case Nil
  show ?case by simp
next
  case (Cons t ts)
  let ?L = "IndexedList_add (links self) t"
  obtain zs where zs: "foldl IndexedList_add ?L ts = ?L @ zs"
    using add_prefix by blast
  have "IndexedList_index (foldl IndexedList_add ?L ts) t = IndexedList_index ?L t"
    unfolding zs by (rule index_append) (rule add_member)
  then show ?case
    by (simp add: link_index_eq Cons.IH)
qed

lemma first_seen_index:
  assumes k: "k < length ts" and new: "ts ! k \<notin> set (take k ts)"
  shows "IndexedList_index (foldl IndexedList_add [] ts) (ts ! k) = Some (card (set (take k ts)))"
proof -
  let ?Lk = "foldl IndexedList_add [] (take k ts)"
  have dk: "distinct ?Lk" and sk: "set ?Lk = set (take k ts)"
    using add_distinct_set[of "[]" "take k ts"] by simp_all
  have len: "length ?Lk = card (set (take k ts))"
    using distinct_card[OF dk] sk by simp
  have fresh: "ts ! k \<notin> set ?Lk" using new sk by simp
  have split: "ts = take k ts @ ts ! k # drop (Suc k) ts"
    using k by (rule id_take_nth_drop)
  have "foldl IndexedList_add [] ts
      = foldl IndexedList_add [] (take k ts @ ts ! k # drop (Suc k) ts)"
    by (rule arg_cong[OF split])
  also have "\<dots> = foldl IndexedList_add (IndexedList_add ?Lk (ts ! k)) (drop (Suc k) ts)"
    by (simp only: foldl_append foldl_Cons)
  also have "\<dots> = foldl IndexedList_add (?Lk @ [ts ! k]) (drop (Suc k) ts)"
    by (simp only: add_fresh[OF fresh])
  finally have "foldl IndexedList_add [] ts
      = foldl IndexedList_add (?Lk @ [ts ! k]) (drop (Suc k) ts)" .
  then obtain zs where zs: "foldl IndexedList_add [] ts = (?Lk @ [ts ! k]) @ zs"
    using add_prefix[of "?Lk @ [ts ! k]" "drop (Suc k) ts"] by auto
  have "IndexedList_index ((?Lk @ [ts ! k]) @ zs) (ts ! k)
      = IndexedList_index (?Lk @ [ts ! k]) (ts ! k)"
    by (rule index_append) simp
  then have "IndexedList_index (foldl IndexedList_add [] ts) (ts ! k)
      = IndexedList_index (?Lk @ [ts ! k]) (ts ! k)"
    by (simp only: zs)
  also have "\<dots> = Some (length ?Lk)" using fresh by (rule index_fresh)
  finally show ?thesis using len by simp
qed

text \<open>
  C3. For every sequence of targets given to the link hook of a new renderer, every
  call returns an index: a target that no earlier call had gets the number of distinct
  targets before it plus one (1 for the first, then 2, and so on), and a target that an
  earlier call had gets the index of that call. For \<^verbatim>\<open>http://x\<close>, \<^verbatim>\<open>http://y\<close>,
  \<^verbatim>\<open>http://x\<close> the indices are 1, 2, 1.
\<close>

theorem link_indices_first_seen:
  "\<exists>idxs. link_indices ExcelRenderer_init targets = Inr idxs
     \<and> length idxs = length targets
     \<and> (\<forall>k < length targets.
           (targets ! k \<notin> set (take k targets) \<longrightarrow> idxs ! k = card (set (take k targets)) + 1)
         \<and> (\<forall>j < k. targets ! j = targets ! k \<longrightarrow> idxs ! k = idxs ! j))"
  by (simp add: link_indices_closed_form ExcelRenderer_init_def first_seen_index)

theorem link_indices_first_seen_witness:
  "link_indices ExcelRenderer_init [''http://x'', ''http://y'', ''http://x''] = Inr [1, 2, 1]"
  using link_indices_first_seen[of "[''http://x'', ''http://y'', ''http://x'']"]
  by (simp add: link_index_def ExcelRenderer_init_def IndexedList_add_def)

subsection \<open>Flushing the link registry\<close>

lemma reference_blocks_Nil: "reference_blocks idx a [] = []"
  by (simp add: reference_blocks_def)

lemma reference_blocks_Cons:
  "reference_blocks idx a (t # ls) =
     \<lparr>be_content = reference_content idx t, be_styles = a\<rparr> # reference_blocks (Suc idx) (Suc a) ls"
  by (simp add: reference_blocks_def map_upt_Suc del: upt_Suc)

lemma terminate_loop_result:
  assumes "block c = Some bs0"
  shows "fst (terminate_loop idx ls c h) = c\<lparr>block := Some (bs0 @ reference_blocks idx (next_addr h) ls)\<rparr>
    \<and> next_addr (snd (terminate_loop idx ls c h)) = next_addr h + length ls
    \<and> (\<forall>a. cells (snd (terminate_loop idx ls c h)) a =
          (if next_addr h \<le> a \<and> a < next_addr h + length ls then [''link''] else cells h a))"
  using assms
proof (induction ls arbitrary: idx c h bs0)
  case Nil
  then show ?case by (auto simp: reference_blocks_Nil)
next
  case (Cons t ls)
  let ?b = "\<lparr>be_content = reference_content idx t, be_styles = next_addr h\<rparr>"
  let ?h2 = "h\<lparr>next_addr := next_addr h + 1, cells := (cells h)(next_addr h := [''link''])\<rparr>"
  let ?c = "c\<lparr>block := Some (bs0 @ [?b])\<rparr>"
  have step: "terminate_loop idx (t # ls) c h = terminate_loop (idx + 1) ls ?c ?h2"
    using Cons.prems
    by (simp add: InlineCollector_init_def InlineCollector_append_def InlineCollector_iadd_def
          apply_marker_def BlockCollector_init_def BlockCollector_append_def new_list_def nest_def
          insert_front_def add_block_def BlockCollector_iadd_def reference_content_def)
  have blk: "block ?c = Some (bs0 @ [?b])" by simp
  from Cons.IH[OF blk, of "idx + 1" ?h2]
  show ?case unfolding step
    by (auto simp: reference_blocks_Cons)
qed

text \<open>
  C2. \<^verbatim>\<open>terminate\<close> on a renderer with no registered link returns an empty
  collector (no block, no inline) and changes nothing. With N links, N at least 1, it
  returns a collector of 1 + N blocks: a block whose content is one empty run and whose
  style list is empty, then for the k-th link a block whose content is the plain run of
  the index k in brackets and a space followed by the run of the target with the link
  marker, with the style list \<^verbatim>\<open>link\<close>; and it leaves the renderer with an empty
  registry, on which \<^verbatim>\<open>terminate\<close> returns an empty collector again.
\<close>

theorem terminate_emits_references:
  "(links self = [] \<longrightarrow> terminate self h = (Collector_init, self, h))
   \<and> (links self \<noteq> [] \<longrightarrow>
        (\<exists>bs h'. terminate self h = (\<lparr>inline = None, block = Some bs\<rparr>, self\<lparr>links := []\<rparr>, h')
           \<and> length bs = 1 + length (links self)
           \<and> be_content (bs ! 0) = [\<lparr>ie_text = [], ie_markers = {}\<rparr>]
           \<and> styles_of h' (bs ! 0) = []
           \<and> (\<forall>k < length (links self).
                 be_content (bs ! (k + 1)) = reference_content (k + 1) (links self ! k)
               \<and> styles_of h' (bs ! (k + 1)) = [''link''])
           \<and> terminate (self\<lparr>links := []\<rparr>) h' = (Collector_init, self\<lparr>links := []\<rparr>, h')))"
proof (intro conjI impI)
  assume "links self = []"
  then show "terminate self h = (Collector_init, self, h)"
    by (simp add: terminate_def)
next
  assume ne: "links self \<noteq> []"
  let ?blank = "\<lparr>be_content = [\<lparr>ie_text = [], ie_markers = {}\<rparr>], be_styles = next_addr h\<rparr>"
  let ?h2 = "h\<lparr>cells := (cells h)(next_addr h := []), next_addr := next_addr h + 1\<rparr>"
  let ?c = "\<lparr>inline = None, block = Some [?blank]\<rparr>"
  let ?r = "terminate_loop 1 (links self) ?c ?h2"
  let ?bs = "?blank # reference_blocks 1 (next_addr h + 1) (links self)"
  have t: "terminate self h = (fst ?r, self\<lparr>links := []\<rparr>, snd ?r)"
    using ne
    by (simp add: terminate_def Collector_init_def BlockCollector_init_def BlockCollector_append_def
          InlineCollector_init_def InlineCollector_append_def new_list_def add_block_def
          BlockCollector_iadd_def split: prod.splits)
  have blk: "block ?c = Some [?blank]" by simp
  note r = terminate_loop_result[OF blk, of 1 "links self" ?h2]
  have f: "fst ?r = \<lparr>inline = None, block = Some ?bs\<rparr>"
    using r by simp
  have cells: "\<And>a. cells (snd ?r) a =
      (if Suc (next_addr h) \<le> a \<and> a < Suc (next_addr h + length (links self)) then [''link'']
       else cells ?h2 a)"
    using r by simp
  show "\<exists>bs h'. terminate self h = (\<lparr>inline = None, block = Some bs\<rparr>, self\<lparr>links := []\<rparr>, h')
           \<and> length bs = 1 + length (links self)
           \<and> be_content (bs ! 0) = [\<lparr>ie_text = [], ie_markers = {}\<rparr>]
           \<and> styles_of h' (bs ! 0) = []
           \<and> (\<forall>k < length (links self).
                 be_content (bs ! (k + 1)) = reference_content (k + 1) (links self ! k)
               \<and> styles_of h' (bs ! (k + 1)) = [''link''])
           \<and> terminate (self\<lparr>links := []\<rparr>) h' = (Collector_init, self\<lparr>links := []\<rparr>, h')"
  proof (intro exI conjI)
    show "terminate self h = (\<lparr>inline = None, block = Some ?bs\<rparr>, self\<lparr>links := []\<rparr>, snd ?r)"
      using t f by simp
    show "length ?bs = 1 + length (links self)"
      by (simp add: reference_blocks_def)
    show "be_content (?bs ! 0) = [\<lparr>ie_text = [], ie_markers = {}\<rparr>]" by simp
    show "styles_of (snd ?r) (?bs ! 0) = []"
      using cells[of "next_addr h"] by (simp add: styles_of_def)
    show "\<forall>k < length (links self).
            be_content (?bs ! (k + 1)) = reference_content (k + 1) (links self ! k)
          \<and> styles_of (snd ?r) (?bs ! (k + 1)) = [''link'']"
    proof (intro allI impI)
      fix k assume k: "k < length (links self)"
      have nth: "?bs ! (k + 1) =
          \<lparr>be_content = reference_content (1 + k) (links self ! k), be_styles = next_addr h + 1 + k\<rparr>"
        using k by (simp add: reference_blocks_def del: upt_Suc)
      show "be_content (?bs ! (k + 1)) = reference_content (k + 1) (links self ! k)
          \<and> styles_of (snd ?r) (?bs ! (k + 1)) = [''link'']"
        unfolding nth using k cells[of "next_addr h + 1 + k"] by (simp add: styles_of_def)
    qed
    show "terminate (self\<lparr>links := []\<rparr>) (snd ?r) = (Collector_init, self\<lparr>links := []\<rparr>, snd ?r)"
      by (simp add: terminate_def)
  qed
qed

theorem terminate_emits_references_witness:
  "links \<lparr>links = [''http://example.com'', ''http://b'']\<rparr> \<noteq> []
   \<and> fst (terminate \<lparr>links = [''http://example.com'', ''http://b'']\<rparr> empty_store) =
       \<lparr>inline = None,
          block = Some
            [\<lparr>be_content = [\<lparr>ie_text = [], ie_markers = {}\<rparr>], be_styles = 0\<rparr>,
             \<lparr>be_content = [\<lparr>ie_text = ''[1] '', ie_markers = {}\<rparr>,
                            \<lparr>ie_text = ''http://example.com'', ie_markers = {''l''}\<rparr>],
                be_styles = 1\<rparr>,
             \<lparr>be_content = [\<lparr>ie_text = ''[2] '', ie_markers = {}\<rparr>,
                            \<lparr>ie_text = ''http://b'', ie_markers = {''l''}\<rparr>],
                be_styles = 2\<rparr>]\<rparr>
   \<and> fst (snd (terminate \<lparr>links = [''http://example.com'', ''http://b'']\<rparr> empty_store)) =
       \<lparr>links = []\<rparr>
   \<and> map (cells (snd (snd (terminate \<lparr>links = [''http://example.com'', ''http://b'']\<rparr> empty_store))))
         [0, 1, 2] = [[], [''link''], [''link'']]
   \<and> terminate \<lparr>links = []\<rparr> empty_store = (Collector_init, \<lparr>links = []\<rparr>, empty_store)"
  using terminate_emits_references[of "\<lparr>links = [''http://example.com'', ''http://b'']\<rparr>" empty_store]
        terminate_emits_references[of "\<lparr>links = []\<rparr>" empty_store]
  by (simp add: terminate_def Collector_init_def BlockCollector_init_def BlockCollector_append_def
        InlineCollector_init_def InlineCollector_append_def InlineCollector_iadd_def apply_marker_def
        new_list_def add_block_def BlockCollector_iadd_def nest_def insert_front_def
        empty_store_def format_d.simps)

subsection \<open>The block hooks\<close>

lemmas hook_defs = and_then_def text_hook_def InlineCollector_init_def InlineCollector_append_def
  InlineCollector_iadd_def apply_marker_def BlockCollector_init_def BlockCollector_append_def
  BlockCollector_iadd_def new_list_def insert_front_def nest_def add_block_def add_inline_def
  Collector_init_def get_block_def get_block_nest_def header_def paragraph_hook_def
  double_emphasis_def empty_store_def styles_of_def

text \<open>
  C7 (as amended). For every placeholder that collected inline content (a plain
  paragraph), the paragraph hook returns one block with that content whose style list
  is \<^verbatim>\<open>paragraph\<close>, not the empty list; \<^verbatim>\<open>create_style\<close> resolves that list to no
  font, no alignment and no fill.
\<close>

theorem paragraph_hook_styles:
  "inline t = Some i \<Longrightarrow>
     \<exists>e h'. paragraph_hook t h = Inr ([e], h')
       \<and> be_content e = i
       \<and> styles_of h' e = [''paragraph'']
       \<and> create_style (styles_of h' e) = (None, None, None)"
  by (simp add: paragraph_hook_def get_block_nest_def get_block_def BlockCollector_init_def
        BlockCollector_append_def new_list_def nest_def insert_front_def styles_of_def
        create_style_def FONTS_def)

theorem paragraph_hook_styles_witness:
  "inline \<lparr>inline = Some (text_hook ''Hello''), block = None\<rparr> = Some (text_hook ''Hello'')
   \<and> emitted_styles
        (and_then (paragraph_hook \<lparr>inline = Some (text_hook ''Hello''), block = None\<rparr> empty_store)
           (\<lambda>(b, h). Inr (\<lparr>inline = None, block = Some b\<rparr>, h)))
      = Inr [[''paragraph'']]"
  using paragraph_hook_styles
          [of "\<lparr>inline = Some (text_hook ''Hello''), block = None\<rparr>" "text_hook ''Hello''" empty_store]
  by (auto simp: emitted_styles_def blocks_of_def and_then_def)

text \<open>
  C7 as stated fails: for a heading \<^verbatim>\<open>Title\<close> and a paragraph
  \<^verbatim>\<open>Hello **world**.\<close> the style list of the second block is \<^verbatim>\<open>paragraph\<close>, and
  that of the first is \<^verbatim>\<open>h1\<close>.
\<close>

theorem paragraph_style_counterexample:
  "emitted_styles title_and_paragraph = Inr [[''h1''], [''paragraph'']]"
  by (simp add: emitted_styles_def blocks_of_def title_and_paragraph_def hook_defs format_d.simps)

text \<open>
  C6. The hook of a horizontal rule returns one block with one empty run and the style
  list \<^verbatim>\<open>hrule\<close>; \<^verbatim>\<open>create_style\<close> has no branch for that tag and resolves the
  list to no font, no alignment and no fill, so the cell of the rule is written with the
  empty run and without \<^verbatim>\<open>FILL_HRULE\<close>.
\<close>

theorem hrule_resolves_to_no_fill:
  "fst (hrule empty_store) = [\<lparr>be_content = [\<lparr>ie_text = [], ie_markers = {}\<rparr>], be_styles = 0\<rparr>]
   \<and> styles_of (snd (hrule empty_store)) \<lparr>be_content = [\<lparr>ie_text = [], ie_markers = {}\<rparr>], be_styles = 0\<rparr>
       = [''hrule'']
   \<and> create_style [''hrule''] = (None, None, None)
   \<and> do_cell (snd (hrule empty_store)) new_cell
        \<lparr>be_content = [\<lparr>ie_text = [], ie_markers = {}\<rparr>], be_styles = 0\<rparr>
       = \<lparr>cell_rich_text = [([], None)], cell_font = None, cell_alignment = None, cell_fill = None\<rparr>"
  by (simp add: hrule_def hook_defs create_style_def FONTS_def do_cell_def prepare_cell_def
        create_font_def new_cell_def)

subsection \<open>Rows of the worksheet\<close>

lemma render_loop_result:
  "ecr_col (render_loop h self bs) = ecr_col self
   \<and> ecr_row (render_loop h self bs) = ecr_row self + int (length bs) + 1
   \<and> (\<forall>r c. ecr_ws (render_loop h self bs) (r, c) =
         (if c = ecr_col self \<and> ecr_row self \<le> r \<and> r < ecr_row self + int (length bs)
          then Some (do_cell h (ws_cell (ecr_ws self) r c) (bs ! nat (r - ecr_row self)))
          else ecr_ws self (r, c)))"
proof (induction bs arbitrary: self)
  case Nil
  show ?case by auto
next
  case (Cons b bs)
  let ?r = "ecr_row self"
  let ?self = "self\<lparr>ecr_ws := (ecr_ws self)((?r, ecr_col self) \<mapsto>
                  do_cell h (ws_cell (ecr_ws self) ?r (ecr_col self)) b),
                ecr_row := ?r + 1\<rparr>"
  have step: "render_loop h self (b # bs) = render_loop h ?self bs"
    by (simp add: Let_def)
  have later: "\<And>r c. ?r + 1 \<le> r \<Longrightarrow> ws_cell (ecr_ws ?self) r c = ws_cell (ecr_ws self) r c"
    by (simp add: ws_cell_def)
  have nth: "\<And>r. ?r + 1 \<le> r \<Longrightarrow> (b # bs) ! nat (r - ?r) = bs ! nat (r - (?r + 1))"
  proof -
    fix r :: int assume "?r + 1 \<le> r"
    then have "nat (r - ?r) = Suc (nat (r - (?r + 1)))" by simp
    then show "(b # bs) ! nat (r - ?r) = bs ! nat (r - (?r + 1))" by simp
  qed
  show ?case unfolding step
  proof (intro conjI allI)
    show "ecr_col (render_loop h ?self bs) = ecr_col self"
      using Cons.IH[of ?self] by simp
    show "ecr_row (render_loop h ?self bs) = ecr_row self + int (length (b # bs)) + 1"
      using Cons.IH[of ?self] by simp
    fix r c
    have ih: "ecr_ws (render_loop h ?self bs) (r, c) =
         (if c = ecr_col self \<and> ?r + 1 \<le> r \<and> r < ?r + 1 + int (length bs)
          then Some (do_cell h (ws_cell (ecr_ws ?self) r c) (bs ! nat (r - (?r + 1))))
          else ecr_ws ?self (r, c))"
      using Cons.IH[of ?self] by simp
    show "ecr_ws (render_loop h ?self bs) (r, c) =
         (if c = ecr_col self \<and> ?r \<le> r \<and> r < ?r + int (length (b # bs))
          then Some (do_cell h (ws_cell (ecr_ws self) r c) ((b # bs) ! nat (r - ?r)))
          else ecr_ws self (r, c))"
    proof (cases "c = ecr_col self \<and> ?r + 1 \<le> r \<and> r < ?r + 1 + int (length bs)")
      case True
      then show ?thesis using ih later[of r c] nth[of r] by simp
    next
      case False
      then show ?thesis using ih by (auto simp: ws_cell_def)
    qed
  qed
qed

lemma card_rows_from: "card (rows_from r c n) = n"
  unfolding rows_from_def by (subst card_image) (auto simp: inj_on_def)

lemma in_rows_from:
  "(r', c') \<in> rows_from r c n \<longleftrightarrow> c' = c \<and> r \<le> r' \<and> r' < r + int n"
proof
  assume "(r', c') \<in> rows_from r c n"
  then show "c' = c \<and> r \<le> r' \<and> r' < r + int n" by (auto simp: rows_from_def)
next
  assume a: "c' = c \<and> r \<le> r' \<and> r' < r + int n"
  then have "nat (r' - r) < n" and "r' = r + int (nat (r' - r))" by auto
  with a show "(r', c') \<in> rows_from r c n"
    unfolding rows_from_def by (intro image_eqI[where x = "nat (r' - r)"]) auto
qed

lemma paragraph_hook_inline:
  "paragraph_hook (add_inline Collector_init p) h =
     Inr ([\<lparr>be_content = p, be_styles = next_addr h\<rparr>],
          h\<lparr>next_addr := next_addr h + 1, cells := (cells h)(next_addr h := [''paragraph''])\<rparr>)"
  by (simp add: paragraph_hook_def get_block_nest_def get_block_def add_inline_def
        Collector_init_def BlockCollector_init_def BlockCollector_append_def new_list_def
        nest_def insert_front_def)

lemma add_block_no_inline:
  "inline out = None \<Longrightarrow>
     inline (fst (add_block out b h)) = None
     \<and> blocks_of (fst (add_block out b h)) = blocks_of out @ b
     \<and> snd (add_block out b h) = h"
  by (cases "block out")
     (simp_all add: add_block_def blocks_of_def BlockCollector_init_def BlockCollector_iadd_def)

lemma parse_paragraphs_result:
  "inline out = None \<Longrightarrow>
     \<exists>out' h'. parse_paragraphs ps out h = Inr (out', h')
       \<and> inline out' = None
       \<and> length (blocks_of out') = length (blocks_of out) + length ps
       \<and> map be_content (blocks_of out') = map be_content (blocks_of out) @ ps"
proof (induction ps arbitrary: out h)
  case Nil
  then show ?case by simp
next
  case (Cons p ps)
  let ?b = "[\<lparr>be_content = p, be_styles = next_addr h\<rparr>]"
  let ?h1 = "h\<lparr>next_addr := next_addr h + 1, cells := (cells h)(next_addr h := [''paragraph''])\<rparr>"
  note ab = add_block_no_inline[OF Cons.prems, of ?b ?h1]
  obtain out1 where pair: "add_block out ?b ?h1 = (out1, ?h1)"
    using ab by (cases "add_block out ?b ?h1") simp
  have out1: "inline out1 = None" "blocks_of out1 = blocks_of out @ ?b"
    using ab pair by simp_all
  have step: "parse_paragraphs (p # ps) out h = parse_paragraphs ps out1 ?h1"
    using pair by (simp add: paragraph_hook_inline)
  from Cons.IH[OF out1(1), of ?h1] out1(2) show ?case
    unfolding step by auto
qed

lemma Collector_render_no_links:
  assumes "inline self = None" and "links md = []"
  shows "\<exists>self'. Collector_render self md h ws r c =
     Inr (render_loop h (ExcelCollectorRenderer_init ws r c) (blocks_of self), self', md, h)"
  using assms
  by (cases "block self")
     (simp_all add: Collector_render_def terminate_def Collector_init_def BlockCollector_init_def
        render_def blocks_of_def Let_def)

text \<open>
  C8. Rendering a block collector of N blocks from row r in column c writes, for every
  k below N, the cell at row r + k and column c with the k-th block (into the cell that
  was there, or a new one), and leaves every other cell of the worksheet as it was: the
  N cells are those of the rows r to r + N - 1 in column c, each written once. For a
  document of paragraphs only and a renderer with no registered link, the rows written
  are as many as the paragraphs.
\<close>

theorem render_writes_consecutive_rows:
  "\<exists>R. render (ExcelCollectorRenderer_init ws r c) (Some bs) h = Inr R
     \<and> (\<forall>k < length bs.
           ecr_ws R (r + int k, c) = Some (do_cell h (ws_cell ws (r + int k) c) (bs ! k)))
     \<and> (\<forall>pos. pos \<notin> rows_from r c (length bs) \<longrightarrow> ecr_ws R pos = ws pos)
     \<and> card (rows_from r c (length bs)) = length bs
     \<and> dom (ecr_ws R) = dom ws \<union> rows_from r c (length bs)
     \<and> (links md = [] \<longrightarrow>
          (\<exists>out h1 P out' h2.
              parse_paragraphs ps Collector_init h0 = Inr (out, h1)
            \<and> Collector_render out md h1 ws r c = Inr (P, out', md, h2)
            \<and> dom (ecr_ws P) = dom ws \<union> rows_from r c (length ps)))"
proof -
  let ?init = "ExcelCollectorRenderer_init ws r c"
  have ws_eq: "\<And>bs h r' c'. ecr_ws (render_loop h ?init bs) (r', c') =
         (if (r', c') \<in> rows_from r c (length bs)
          then Some (do_cell h (ws_cell ws r' c') (bs ! nat (r' - r)))
          else ws (r', c'))"
    using render_loop_result[of _ ?init]
    by (simp add: ExcelCollectorRenderer_init_def in_rows_from)
  have dom_eq: "\<And>bs h. dom (ecr_ws (render_loop h ?init bs)) = dom ws \<union> rows_from r c (length bs)"
  proof -
    fix bs h
    show "dom (ecr_ws (render_loop h ?init bs)) = dom ws \<union> rows_from r c (length bs)"
    proof (rule set_eqI)
      fix pos :: "int \<times> int"
      obtain r' c' where pos: "pos = (r', c')" by (cases pos)
      show "pos \<in> dom (ecr_ws (render_loop h ?init bs)) \<longleftrightarrow> pos \<in> dom ws \<union> rows_from r c (length bs)"
        unfolding pos by (simp add: dom_def ws_eq)
    qed
  qed
  have rows: "\<forall>k < length bs.
      ecr_ws (render_loop h ?init bs) (r + int k, c) = Some (do_cell h (ws_cell ws (r + int k) c) (bs ! k))"
    by (simp add: ws_eq in_rows_from)
  have others: "\<forall>pos. pos \<notin> rows_from r c (length bs) \<longrightarrow> ecr_ws (render_loop h ?init bs) pos = ws pos"
  proof (intro allI impI)
    fix pos :: "int \<times> int" assume "pos \<notin> rows_from r c (length bs)"
    then show "ecr_ws (render_loop h ?init bs) pos = ws pos"
      by (cases pos) (simp add: ws_eq)
  qed
  have paragraphs: "links md = [] \<longrightarrow>
          (\<exists>out h1 P out' h2.
              parse_paragraphs ps Collector_init h0 = Inr (out, h1)
            \<and> Collector_render out md h1 ws r c = Inr (P, out', md, h2)
            \<and> dom (ecr_ws P) = dom ws \<union> rows_from r c (length ps))"
  proof
    assume nl: "links md = []"
    have "inline Collector_init = None" by (simp add: Collector_init_def)
    from parse_paragraphs_result[OF this, of ps h0]
    obtain out h1 where p: "parse_paragraphs ps Collector_init h0 = Inr (out, h1)"
      and i: "inline out = None" and l: "length (blocks_of out) = length ps"
      by (auto simp: blocks_of_def Collector_init_def)
    from Collector_render_no_links[OF i nl, of h1 ws r c]
    obtain out' where rd: "Collector_render out md h1 ws r c =
        Inr (render_loop h1 ?init (blocks_of out), out', md, h1)" by blast
    show "\<exists>out h1 P out' h2.
              parse_paragraphs ps Collector_init h0 = Inr (out, h1)
            \<and> Collector_render out md h1 ws r c = Inr (P, out', md, h2)
            \<and> dom (ecr_ws P) = dom ws \<union> rows_from r c (length ps)"
      using p rd dom_eq[of h1 "blocks_of out"] l by auto
  qed
  show ?thesis
    using rows others dom_eq[of h bs] paragraphs
    by (simp add: render_def card_rows_from)
qed

theorem render_writes_consecutive_rows_witness:
  "links ExcelRenderer_init = []
   \<and> (\<exists>R. render (ExcelCollectorRenderer_init Map.empty 3 2)
              (Some [\<lparr>be_content = text_hook ''a'', be_styles = 0\<rparr>,
                     \<lparr>be_content = text_hook ''b'', be_styles = 1\<rparr>]) empty_store = Inr R
          \<and> ecr_ws R (3, 2) =
              Some (do_cell empty_store new_cell \<lparr>be_content = text_hook ''a'', be_styles = 0\<rparr>)
          \<and> ecr_ws R (4, 2) =
              Some (do_cell empty_store new_cell \<lparr>be_content = text_hook ''b'', be_styles = 1\<rparr>)
          \<and> dom (ecr_ws R) = rows_from 3 2 2)
   \<and> card (rows_from 3 2 2) = 2
   \<and> (\<exists>out h1 P out' h2.
          parse_paragraphs [text_hook ''a'', text_hook ''b''] Collector_init empty_store = Inr (out, h1)
        \<and> Collector_render out ExcelRenderer_init h1 Map.empty 3 2 = Inr (P, out', ExcelRenderer_init, h2)
        \<and> dom (ecr_ws P) = rows_from 3 2 2)"
proof -
  let ?bs = "[\<lparr>be_content = text_hook ''a'', be_styles = 0\<rparr>,
              \<lparr>be_content = text_hook ''b'', be_styles = 1\<rparr>]"
  have nl: "links ExcelRenderer_init = []" by (simp add: ExcelRenderer_init_def)
  from render_writes_consecutive_rows
         [of Map.empty 3 2 ?bs empty_store ExcelRenderer_init
             "[text_hook ''a'', text_hook ''b'']" empty_store]
  obtain R where R: "render (ExcelCollectorRenderer_init Map.empty 3 2) (Some ?bs) empty_store = Inr R"
    and rows: "\<forall>k < length ?bs.
        ecr_ws R (3 + int k, 2) = Some (do_cell empty_store (ws_cell Map.empty (3 + int k) 2) (?bs ! k))"
    and d: "dom (ecr_ws R) = dom (Map.empty :: Worksheet) \<union> rows_from 3 2 (length ?bs)"
    and c: "card (rows_from 3 2 (length ?bs)) = length ?bs"
    and p: "links ExcelRenderer_init = [] \<longrightarrow>
          (\<exists>out h1 P out' h2.
              parse_paragraphs [text_hook ''a'', text_hook ''b''] Collector_init empty_store = Inr (out, h1)
            \<and> Collector_render out ExcelRenderer_init h1 Map.empty 3 2 = Inr (P, out', ExcelRenderer_init, h2)
            \<and> dom (ecr_ws P) = dom (Map.empty :: Worksheet) \<union> rows_from 3 2 (length [text_hook ''a'', text_hook ''b'']))"
    by blast
  have r0: "ecr_ws R (3, 2) = Some (do_cell empty_store new_cell \<lparr>be_content = text_hook ''a'', be_styles = 0\<rparr>)"
    using rows[rule_format, of 0] by (simp add: ws_cell_def)
  have r1: "ecr_ws R (4, 2) = Some (do_cell empty_store new_cell \<lparr>be_content = text_hook ''b'', be_styles = 1\<rparr>)"
    using rows[rule_format, of 1] by (simp add: ws_cell_def)
  have two: "length ?bs = 2" "length [text_hook ''a'', text_hook ''b''] = 2"
    by simp_all
  have d': "dom (ecr_ws R) = rows_from 3 2 2"
    using d by (simp only: two dom_empty Un_empty_left)
  have c': "card (rows_from 3 2 2) = 2"
    using c by (simp only: two)
  have p': "\<exists>out h1 P out' h2.
          parse_paragraphs [text_hook ''a'', text_hook ''b''] Collector_init empty_store = Inr (out, h1)
        \<and> Collector_render out ExcelRenderer_init h1 Map.empty 3 2 = Inr (P, out', ExcelRenderer_init, h2)
        \<and> dom (ecr_ws P) = rows_from 3 2 2"
    using p nl by (simp only: two dom_empty Un_empty_left simp_thms)
  show ?thesis
    using nl R r0 r1 d' c' p' by blast
qed

end
